theory Spec2Isabelle
  imports Complex_Main "HOL-Library.Multiset"
begin

section \<open>Churn decision tool: the decision and analytics engine\<close>

text \<open>
  The repository holds two versions of the script \<^verbatim>\<open>decision_tool.js\<close>: the
  business-forward one (\<^verbatim>\<open>profitFor\<close>, \<^verbatim>\<open>randomStrategy\<close>, \<^verbatim>\<open>roi\<close>,
  \<^verbatim>\<open>breakEvenSaveRate\<close>, \<^verbatim>\<open>computePrecisionRecall\<close>, \<^verbatim>\<open>computeProfitCurve\<close>) and the
  earlier one (\<^verbatim>\<open>computePolicy\<close>). Both are embedded here. The module variables
  \<^verbatim>\<open>rows\<close>, \<^verbatim>\<open>hasActual\<close> and \<^verbatim>\<open>baseRate\<close> become a state record that every
  function receives.

  JavaScript numbers are modelled as exact reals: rounding and overflow of IEEE doubles
  are not part of the model. The values a division by zero produces (\<^verbatim>\<open>NaN\<close>,
  \<^verbatim>\<open>Infinity\<close>) are modelled, in the type \<open>jsnum\<close>, at the one place of the
  source where a division is not guarded.
\<close>

subsection \<open>JavaScript numbers and values\<close>

datatype jsnum = Num real | PosInf | NegInf | NaN

datatype jsval = Undefined | Str string | Numv real

text \<open>Division \<^verbatim>\<open>a / b\<close> of two finite numbers, the divisor never being \<^verbatim>\<open>-0\<close>
  (it is an array length in the source).\<close>

definition js_div :: "real \<Rightarrow> real \<Rightarrow> jsnum" where
  "js_div a b =
     (if b \<noteq> 0 then Num (a / b)
      else if a = 0 then NaN
      else if 0 < a then PosInf else NegInf)"

fun js_mul :: "jsnum \<Rightarrow> jsnum \<Rightarrow> jsnum" where
  "js_mul NaN y = NaN"
| "js_mul x NaN = NaN"
| "js_mul (Num a) (Num b) = Num (a * b)"
| "js_mul (Num a) PosInf = (if a = 0 then NaN else if 0 < a then PosInf else NegInf)"
| "js_mul (Num a) NegInf = (if a = 0 then NaN else if 0 < a then NegInf else PosInf)"
| "js_mul PosInf (Num b) = (if b = 0 then NaN else if 0 < b then PosInf else NegInf)"
| "js_mul NegInf (Num b) = (if b = 0 then NaN else if 0 < b then NegInf else PosInf)"
| "js_mul PosInf PosInf = PosInf"
| "js_mul PosInf NegInf = NegInf"
| "js_mul NegInf PosInf = NegInf"
| "js_mul NegInf NegInf = PosInf"

fun js_sub :: "jsnum \<Rightarrow> jsnum \<Rightarrow> jsnum" where
  "js_sub NaN y = NaN"
| "js_sub x NaN = NaN"
| "js_sub (Num a) (Num b) = Num (a - b)"
| "js_sub (Num a) PosInf = NegInf"
| "js_sub (Num a) NegInf = PosInf"
| "js_sub PosInf (Num b) = PosInf"
| "js_sub NegInf (Num b) = NegInf"
| "js_sub PosInf PosInf = NaN"
| "js_sub PosInf NegInf = PosInf"
| "js_sub NegInf PosInf = NegInf"
| "js_sub NegInf NegInf = NaN"

text \<open>
  \<^verbatim>\<open>Number(x)\<close>. The conversion of a string to a number is a built-in of the
  language, not code of the repository: it is the parameter \<open>numOf\<close>, and every
  theorem below holds for every such function.
\<close>

definition ToNumber :: "(string \<Rightarrow> jsnum) \<Rightarrow> jsval \<Rightarrow> jsnum" where
  "ToNumber numOf x = (case x of Undefined \<Rightarrow> NaN | Str s \<Rightarrow> numOf s | Numv r \<Rightarrow> Num r)"

text \<open>\<^verbatim>\<open>toNumber(x, fallback)\<close>: \<^verbatim>\<open>Number.isFinite(n) ? n : fallback\<close>.\<close>

definition toNumber :: "(string \<Rightarrow> jsnum) \<Rightarrow> jsval \<Rightarrow> real \<Rightarrow> real" where
  "toNumber numOf x fallback = (case ToNumber numOf x of Num n \<Rightarrow> n | _ \<Rightarrow> fallback)"

text \<open>\<^verbatim>\<open>clamp(n, lo, hi) = Math.max(lo, Math.min(hi, n))\<close>.\<close>

definition clamp :: "real \<Rightarrow> real \<Rightarrow> real \<Rightarrow> real" where
  "clamp n lo hi = max lo (min hi n)"

text \<open>The operator \<^verbatim>\<open>a ?? b\<close> on a value that may be \<^verbatim>\<open>undefined\<close>.\<close>

definition nullish :: "'a option \<Rightarrow> 'a option \<Rightarrow> 'a option" where
  "nullish a b = (case a of None \<Rightarrow> b | Some v \<Rightarrow> Some v)"

text \<open>\<^verbatim>\<open>String.prototype.trim\<close>, on the ASCII white space characters.\<close>

definition is_space :: "char \<Rightarrow> bool" where
  "is_space c = (c \<in> set [CHR '' '', CHR 0x09, CHR 0x0A, CHR 0x0B, CHR 0x0C, CHR 0x0D])"

definition trim :: "string \<Rightarrow> string" where
  "trim s = rev (dropWhile is_space (rev (dropWhile is_space s)))"

text \<open>
  \<^verbatim>\<open>xs.slice(0, end)\<close>: the end is truncated to an integer, a negative end counts
  from the back, and the result is cut at the length of the array.
\<close>

definition trunc :: "real \<Rightarrow> int" where
  "trunc x = (if x < 0 then \<lceil>x\<rceil> else \<lfloor>x\<rfloor>)"

definition slice0 :: "'a list \<Rightarrow> real \<Rightarrow> 'a list" where
  "slice0 xs e =
     (let len = int (length xs); relEnd = trunc e;
          final = (if relEnd < 0 then max (len + relEnd) 0 else min relEnd len)
      in take (nat final) xs)"

text \<open>
  \<^verbatim>\<open>xs.sort(cmp)\<close>. The language requires the sort to be stable; with a comparator
  that orders by a key, the result is the stable insertion of every element, from the
  last to the first, before the first element it does not have to follow.
\<close>

fun sort_insert :: "('a \<Rightarrow> 'a \<Rightarrow> real) \<Rightarrow> 'a \<Rightarrow> 'a list \<Rightarrow> 'a list" where
  "sort_insert cmp x [] = [x]"
| "sort_insert cmp x (y # ys) =
     (if cmp x y \<le> 0 then x # y # ys else y # sort_insert cmp x ys)"

definition js_sort :: "('a \<Rightarrow> 'a \<Rightarrow> real) \<Rightarrow> 'a list \<Rightarrow> 'a list" where
  "js_sort cmp xs = foldr (sort_insert cmp) xs []"

subsection \<open>Data model\<close>

record row =
  customer_id :: string
  churn_probability :: real
  actual_churn :: "real option"

text \<open>The module variables of the business-forward script; \<open>baseRate = None\<close> is
  \<^verbatim>\<open>null\<close>, its value before a dataset is loaded.\<close>

record state =
  rows :: "row list"
  hasActual :: bool
  baseRate :: "jsnum option"

definition initial_state :: state where
  "initial_state = \<lparr>rows = [], hasActual = False, baseRate = None\<rparr>"

record 'n strategy =
  profit :: 'n
  cost :: real
  tpExp :: 'n

record evaluation = "real strategy" +
  contacted :: "row list"

record metrics =
  precision :: "real option"
  recall :: "real option"
  tp :: "real option"
  fp :: "real option"
  totalPos :: "real option"

record curve_point =
  capacity :: nat
  point_profit :: real

subsection \<open>Policy evaluation\<close>

definition expectedTP :: "state \<Rightarrow> row list \<Rightarrow> real" where
  "expectedTP st cs =
     (if hasActual st
      then foldl (\<lambda>t r. t + (if actual_churn r = Some 1 then 1 else 0)) 0 cs
      else foldl (\<lambda>s r. s + churn_probability r) 0 cs)"

definition profitFor :: "state \<Rightarrow> real \<Rightarrow> real \<Rightarrow> real \<Rightarrow> real \<Rightarrow> evaluation" where
  "profitFor st contactedCount contactCost churnLoss saveRate =
     (let N = clamp contactedCount 0 (real (length (rows st)));
          cs = slice0 (rows st) N;
          t = expectedTP st cs;
          c = N * contactCost;
          p = t * (saveRate * churnLoss) - c
      in \<lparr>profit = p, cost = c, tpExp = t, contacted = cs\<rparr>)"

definition randomStrategy :: "state \<Rightarrow> real \<Rightarrow> real \<Rightarrow> real \<Rightarrow> real \<Rightarrow> jsnum strategy" where
  "randomStrategy st contactedCount contactCost churnLoss saveRate =
     (let N = clamp contactedCount 0 (real (length (rows st)));
          t = js_mul (Num N) (case baseRate st of None \<Rightarrow> Num 0 | Some b \<Rightarrow> b);
          c = N * contactCost;
          p = js_sub (js_mul t (Num (saveRate * churnLoss))) (Num c)
      in \<lparr>profit = p, cost = c, tpExp = t\<rparr>)"

definition doNothingStrategy :: "real strategy" where
  "doNothingStrategy = \<lparr>profit = 0, cost = 0, tpExp = 0\<rparr>"

subsection \<open>Metrics\<close>

definition roi :: "real \<Rightarrow> real \<Rightarrow> real option" where
  "roi p c = (if c \<le> 0 then None else Some (p / c))"

definition breakEvenSaveRate :: "real \<Rightarrow> real \<Rightarrow> real \<Rightarrow> real \<Rightarrow> real option" where
  "breakEvenSaveRate t contacts churnLoss contactCost =
     (if t \<le> 0 \<or> churnLoss \<le> 0 then None
      else Some ((contacts * contactCost) / (t * churnLoss)))"

definition computePrecisionRecall :: "state \<Rightarrow> row list \<Rightarrow> metrics" where
  "computePrecisionRecall st cs =
     (if \<not> hasActual st
      then \<lparr>precision = None, recall = None, tp = None, fp = None, totalPos = None\<rparr>
      else
        (let tot = foldl (\<lambda>t r. t + (if actual_churn r = Some 1 then 1 else 0)) 0 (rows st);
             (t, f) = foldl (\<lambda>(t, f) r. if actual_churn r = Some 1 then (t + 1, f) else (t, f + 1))
                        (0, 0) cs;
             pr = (if t + f > 0 then t / (t + f) else 0);
             rc = (if tot > 0 then t / tot else 0)
         in \<lparr>precision = Some pr, recall = Some rc, tp = Some t, fp = Some f,
             totalPos = Some tot\<rparr>))"

subsection \<open>Profit curve\<close>

text \<open>\<^verbatim>\<open>step = Math.max(50, Math.floor(n / 40))\<close>.\<close>

definition curve_step :: "nat \<Rightarrow> nat" where
  "curve_step n = max 50 (n div 40)"

text \<open>The loop \<^verbatim>\<open>for (cap = 0; cap <= n; cap += step)\<close>, started at any \<open>cap\<close>.
  The step does not change during the loop; it is written as \<open>curve_step n\<close> in the
  recursive call, which makes the step positive and the recursion terminating.\<close>

function curve_loop :: "state \<Rightarrow> real \<Rightarrow> real \<Rightarrow> real \<Rightarrow> nat \<Rightarrow> nat \<Rightarrow> curve_point list" where
  "curve_loop st contactCost churnLoss saveRate n cap =
     (if cap \<le> n
      then \<lparr>capacity = cap,
            point_profit = profit (profitFor st (real cap) contactCost churnLoss saveRate)\<rparr>
           # curve_loop st contactCost churnLoss saveRate n (cap + curve_step n)
      else [])"
  by pat_completeness auto
termination
  by (relation "measure (\<lambda>(st, cc, cl, sr, n, cap). Suc n - cap)")
     (auto simp: curve_step_def)

definition computeProfitCurve :: "state \<Rightarrow> real \<Rightarrow> real \<Rightarrow> real \<Rightarrow> curve_point list" where
  "computeProfitCurve st contactCost churnLoss saveRate =
     (let n = length (rows st) in
      if n = 0 then []
      else
        (let points = curve_loop st contactCost churnLoss saveRate n 0 in
         if (case points of [] \<Rightarrow> True | _ \<Rightarrow> capacity (last points) \<noteq> n)
         then points @ [\<lparr>capacity = n,
                 point_profit = profit (profitFor st (real n) contactCost churnLoss saveRate)\<rparr>]
         else points))"

subsection \<open>Loading\<close>

text \<open>A parsed CSV record: an object from header names to trimmed cells.\<close>

type_synonym parsed = "string \<rightharpoonup> string"

definition init_row :: "(string \<Rightarrow> jsnum) \<Rightarrow> parsed \<Rightarrow> row" where
  "init_row numOf r =
     (let cid = trim (case nullish (r ''customer_id'') (nullish (r ''Customer_ID'')
                        (nullish (r ''id'') (r ''row_index''))) of None \<Rightarrow> [] | Some s \<Rightarrow> s);
          prob = toNumber numOf
                   (case nullish (r ''churn_probability'') (nullish (r ''score'')
                        (nullish (r ''proba'') (r ''prob''))) of None \<Rightarrow> Undefined | Some s \<Rightarrow> Str s) 0;
          actualRaw = r ''actual_churn'';
          actual = (case actualRaw of None \<Rightarrow> None
                    | Some s \<Rightarrow> if s = [] then None else Some (toNumber numOf (Str s) 0))
      in \<lparr>customer_id = cid, churn_probability = prob, actual_churn = actual\<rparr>)"

definition by_risk_desc :: "row \<Rightarrow> row \<Rightarrow> real" where
  "by_risk_desc a b = churn_probability b - churn_probability a"

definition init :: "(string \<Rightarrow> jsnum) \<Rightarrow> parsed list \<Rightarrow> state" where
  "init numOf ps =
     (let rs = map (init_row numOf) ps;
          ha = list_ex (\<lambda>r. actual_churn r \<noteq> None) rs;
          br = (if ha
                then js_div (foldl (\<lambda>acc r. acc + (if actual_churn r = Some 1 then 1 else 0)) 0 rs)
                       (real (length rs))
                else js_div (foldl (\<lambda>acc r. acc + churn_probability r) 0 rs)
                       (real (length rs)))
      in \<lparr>rows = js_sort by_risk_desc rs, hasActual = ha, baseRate = Some br\<rparr>)"

subsection \<open>The earlier script: \<^verbatim>\<open>computePolicy\<close>\<close>

record dt_state =
  dt_rows :: "row list"
  dt_hasActual :: bool

record policy =
  p_profit :: real
  p_contacts :: real
  p_tp :: real
  p_fp :: real
  p_precision :: "real option"
  p_recall :: "real option"
  p_contacted :: "row list"

text \<open>A stored label read back as a value: \<^verbatim>\<open>undefined\<close> or a number. In
  \<^verbatim>\<open>computePolicy\<close> the local \<^verbatim>\<open>notContacted\<close>, which the source never reads, is
  left out.\<close>

definition label_val :: "row \<Rightarrow> jsval" where
  "label_val r = (case actual_churn r of None \<Rightarrow> Undefined | Some v \<Rightarrow> Numv v)"

definition computePolicy ::
  "(string \<Rightarrow> jsnum) \<Rightarrow> dt_state \<Rightarrow> real \<Rightarrow> real \<Rightarrow> real \<Rightarrow> real \<Rightarrow> policy" where
  "computePolicy numOf st topN contactCost churnLoss saveRate =
     (let N = clamp topN 0 (real (length (dt_rows st)));
          contacts = N;
          cs = slice0 (dt_rows st) N;
          tot = (if dt_hasActual st
                 then foldl (\<lambda>t r. if toNumber numOf (label_val r) 0 = 1 then t + 1 else t) 0
                        (dt_rows st)
                 else 0);
          (t, f) = (if dt_hasActual st
                    then foldl (\<lambda>(t, f) r. if toNumber numOf (label_val r) 0 = 1
                                             then (t + 1, f) else (t, f + 1)) (0, 0) cs
                    else (0, 0));
          e = (if \<not> dt_hasActual st
               then foldl (\<lambda>acc r. acc + toNumber numOf (Numv (churn_probability r)) 0) 0 cs
               else t);
          p = e * (saveRate * churnLoss) - contacts * contactCost;
          pr = (if dt_hasActual st then Some (if t + f > 0 then t / (t + f) else 0) else None);
          rc = (if dt_hasActual st then Some (if tot > 0 then t / tot else 0) else None)
      in \<lparr>p_profit = p, p_contacts = contacts, p_tp = t, p_fp = f, p_precision = pr,
          p_recall = rc, p_contacted = cs\<rparr>)"

definition dt_init_row :: "(string \<Rightarrow> jsnum) \<Rightarrow> parsed \<Rightarrow> row" where
  "dt_init_row numOf r =
     \<lparr>customer_id = (case nullish (r ''customer_id'') (nullish (r ''Customer_ID'')
                        (nullish (r ''customer'') (nullish (r ''id'') (r ''row_index''))))
                      of None \<Rightarrow> [] | Some s \<Rightarrow> s),
      churn_probability = toNumber numOf
                   (case nullish (r ''churn_probability'') (nullish (r ''score'')
                        (nullish (r ''proba'') (r ''prob''))) of None \<Rightarrow> Undefined | Some s \<Rightarrow> Str s) 0,
      actual_churn = (case r ''actual_churn'' of None \<Rightarrow> None
                      | Some s \<Rightarrow> Some (toNumber numOf (Str s) 0))\<rparr>"

definition dt_init :: "(string \<Rightarrow> jsnum) \<Rightarrow> parsed list \<Rightarrow> dt_state" where
  "dt_init numOf ps =
     (let rs = map (dt_init_row numOf) ps;
          ha = list_ex (\<lambda>r. actual_churn r \<noteq> None) rs
      in \<lparr>dt_rows = js_sort by_risk_desc rs, dt_hasActual = ha\<rparr>)"

subsection \<open>Derived notions and scenario data\<close>

text \<open>The number of entries of a list whose label is exactly 1.\<close>

definition positives :: "row list \<Rightarrow> nat" where
  "positives rs = length (filter (\<lambda>r. actual_churn r = Some 1) rs)"

text \<open>The metrics \<^verbatim>\<open>renderExecSummary\<close> computes: precision and recall of the slice
  that \<^verbatim>\<open>profitFor\<close> contacted.\<close>

definition execMetrics :: "state \<Rightarrow> real \<Rightarrow> real \<Rightarrow> real \<Rightarrow> real \<Rightarrow> metrics" where
  "execMetrics st topN contactCost churnLoss saveRate =
     computePrecisionRecall st (contacted (profitFor st topN contactCost churnLoss saveRate))"

text \<open>The four-customer scenario of the specification, labeled and unlabeled, as the
  loader leaves it.\<close>

definition scenario_rows :: "row list" where
  "scenario_rows =
     [\<lparr>customer_id = ''a'', churn_probability = 9 / 10, actual_churn = Some 1\<rparr>,
      \<lparr>customer_id = ''b'', churn_probability = 8 / 10, actual_churn = Some 0\<rparr>,
      \<lparr>customer_id = ''c'', churn_probability = 3 / 10, actual_churn = Some 1\<rparr>,
      \<lparr>customer_id = ''d'', churn_probability = 1 / 10, actual_churn = Some 0\<rparr>]"

definition scenario_state :: state where
  "scenario_state = \<lparr>rows = scenario_rows, hasActual = True, baseRate = Some (Num (1 / 2))\<rparr>"

definition scenario_unlabeled :: state where
  "scenario_unlabeled =
     \<lparr>rows = map (\<lambda>r. r\<lparr>actual_churn := None\<rparr>) scenario_rows, hasActual = False,
      baseRate = Some (Num (21 / 40))\<rparr>"

text \<open>A labeled population without a churner: one customer, labeled 0.\<close>

definition unchurned_state :: state where
  "unchurned_state =
     \<lparr>rows = [\<lparr>customer_id = ''a'', churn_probability = 1 / 2, actual_churn = Some 0\<rparr>],
      hasActual = True, baseRate = Some (Num 0)\<rparr>"

text \<open>
  Concrete input for evaluation: the value of \<^verbatim>\<open>Number\<close> on the cells the scenario
  files use (every other string of these files is not numeric), the scenario as parsed
  records in file order, and a file with two customers of equal risk.
\<close>

definition scenario_Number :: "string \<Rightarrow> jsnum" where
  "scenario_Number s =
     (if s = ''0'' then Num 0 else if s = ''1'' then Num 1 else if s = ''2'' then Num 2
      else if s = ''0.1'' then Num (1 / 10) else if s = ''0.3'' then Num (3 / 10)
      else if s = ''0.5'' then Num (1 / 2) else if s = ''0.8'' then Num (8 / 10)
      else if s = ''0.9'' then Num (9 / 10) else NaN)"


definition ties_parsed :: "parsed list" where
  "ties_parsed =
     [[''customer_id'' \<mapsto> ''x'', ''churn_probability'' \<mapsto> ''0.5''],
      [''customer_id'' \<mapsto> ''y'', ''churn_probability'' \<mapsto> ''0.9''],
      [''customer_id'' \<mapsto> ''z'', ''churn_probability'' \<mapsto> ''0.5'']]"

text \<open>A labeled file whose labels are \<^verbatim>\<open>1\<close>, a word, another number and \<^verbatim>\<open>0\<close>.\<close>

definition odd_labels_parsed :: "parsed list" where
  "odd_labels_parsed =
     [[''customer_id'' \<mapsto> ''a'', ''churn_probability'' \<mapsto> ''0.9'', ''actual_churn'' \<mapsto> ''1''],
      [''customer_id'' \<mapsto> ''b'', ''churn_probability'' \<mapsto> ''0.8'', ''actual_churn'' \<mapsto> ''yes''],
      [''customer_id'' \<mapsto> ''c'', ''churn_probability'' \<mapsto> ''0.3'', ''actual_churn'' \<mapsto> ''2''],
      [''customer_id'' \<mapsto> ''d'', ''churn_probability'' \<mapsto> ''0.1'', ''actual_churn'' \<mapsto> ''0'']]"

section \<open>Auxiliary facts\<close>

lemma foldl_count:
  "foldl (\<lambda>t r. t + (if P r then 1 else 0)) (a::real) xs = a + real (length (filter P xs))"
  by (induction xs arbitrary: a) simp_all

lemma foldl_count_if:
  "foldl (\<lambda>t r. if P r then t + 1 else t) (a::real) xs = a + real (length (filter P xs))"
  by (induction xs arbitrary: a) simp_all

lemma foldl_sum:
  "foldl (\<lambda>s r. s + f r) (a::real) xs = a + sum_list (map f xs)"
  by (induction xs arbitrary: a) simp_all

lemma foldl_tp_fp:
  "foldl (\<lambda>(t, f) r. if P r then (t + 1, f) else (t, f + 1)) (a::real, b::real) xs
     = (a + real (length (filter P xs)), b + real (length (filter (\<lambda>r. \<not> P r) xs)))"
  by (induction xs arbitrary: a b) simp_all

lemma clamp_bounds: "0 \<le> clamp c 0 (real n) \<and> clamp c 0 (real n) \<le> real n"
  by (simp add: clamp_def)

lemma slice0_take:
  assumes "0 \<le> N" "N \<le> real (length xs)"
  shows "slice0 xs N = take (nat \<lfloor>N\<rfloor>) xs"
proof -
  have "\<lfloor>N\<rfloor> \<le> int (length xs)" using assms(2) by linarith
  moreover have "0 \<le> \<lfloor>N\<rfloor>" using assms(1) by simp
  ultimately show ?thesis using assms(1)
    by (simp add: slice0_def trunc_def Let_def min_def)
qed

lemma toNumber_Numv: "toNumber numOf (Numv v) d = v"
  by (simp add: toNumber_def ToNumber_def)

lemma toNumber_label: "(toNumber numOf (label_val r) 0 = 1) = (actual_churn r = Some 1)"
  by (cases "actual_churn r") (simp_all add: toNumber_def ToNumber_def label_val_def)

lemma profitFor_fields:
  "profit (profitFor st cap cc cl sr)
     = tpExp (profitFor st cap cc cl sr) * (sr * cl) - cost (profitFor st cap cc cl sr)"
  "cost (profitFor st cap cc cl sr) = clamp cap 0 (real (length (rows st))) * cc"
  "tpExp (profitFor st cap cc cl sr) = expectedTP st (contacted (profitFor st cap cc cl sr))"
  "contacted (profitFor st cap cc cl sr)
     = take (nat \<lfloor>clamp cap 0 (real (length (rows st)))\<rfloor>) (rows st)"
  using clamp_bounds [of cap "length (rows st)"]
  by (simp_all add: profitFor_def Let_def slice0_take)

lemma clamp_int_length:
  assumes "cap \<in> \<int>"
  shows "real (length (take (nat \<lfloor>clamp cap 0 (real (length xs))\<rfloor>) xs))
           = clamp cap 0 (real (length xs))"
proof -
  obtain k :: int where k: "cap = of_int k" using assms by (auto elim: Ints_cases)
  define m where "m = max 0 (min (int (length xs)) k)"
  have m: "0 \<le> m" "m \<le> int (length xs)" by (simp_all add: m_def)
  have "clamp cap 0 (real (length xs)) = of_int m"
    unfolding clamp_def k m_def by (simp add: max_def min_def)
  moreover have "nat m \<le> length xs" using m by linarith
  then have "real (length (take (nat m) xs)) = of_int m"
    using m by (simp add: min_absorb2)
  ultimately show ?thesis by simp
qed

lemma computePolicy_fields:
  "p_contacts (computePolicy numOf d cap cc cl sr) = clamp cap 0 (real (length (dt_rows d)))"
  "p_contacted (computePolicy numOf d cap cc cl sr)
     = take (nat \<lfloor>clamp cap 0 (real (length (dt_rows d)))\<rfloor>) (dt_rows d)"
  "p_tp (computePolicy numOf d cap cc cl sr)
     = (if dt_hasActual d
        then real (length (filter (\<lambda>r. actual_churn r = Some 1)
                             (p_contacted (computePolicy numOf d cap cc cl sr))))
        else 0)"
  "p_profit (computePolicy numOf d cap cc cl sr)
     = (if dt_hasActual d
        then real (length (filter (\<lambda>r. actual_churn r = Some 1)
                             (p_contacted (computePolicy numOf d cap cc cl sr))))
        else sum_list (map churn_probability (p_contacted (computePolicy numOf d cap cc cl sr))))
       * (sr * cl) - clamp cap 0 (real (length (dt_rows d))) * cc"
  using clamp_bounds [of cap "length (dt_rows d)"]
  by (simp_all add: computePolicy_def Let_def slice0_take toNumber_label toNumber_Numv
        foldl_tp_fp foldl_sum split: prod.splits)

section \<open>Metrics: return on investment and break-even save rate\<close>

text \<open>
  Claim C5. \<^verbatim>\<open>roi(profit, cost)\<close> returns the not-applicable value (\<^verbatim>\<open>null\<close>,
  here \<open>None\<close>) exactly when \<open>cost \<le> 0\<close>, and otherwise returns \<open>profit / cost\<close>.
\<close>

theorem roi_spec:
  "(roi p c = None \<longleftrightarrow> c \<le> 0) \<and> (\<not> c \<le> 0 \<longrightarrow> roi p c = Some (p / c))"
  by (simp add: roi_def)

theorem roi_spec_witness:
  "roi 30 20 = Some (3 / 2) \<and> roi 0 0 = None"
  using roi_spec [of 30 20] roi_spec [of 0 0] by simp

text \<open>
  Claim C4. \<^verbatim>\<open>breakEvenSaveRate\<close> returns the not-applicable value exactly when
  the expected true positives or the loss per churner are not positive; otherwise it
  returns \<open>(contacts * contactCost) / (tpExp * churnLoss)\<close>, and the profit formula at
  that save rate, with the same contacts, contact cost, loss and expected true
  positives, gives 0. The last part is also stated on \<open>profitFor\<close> itself: the policy
  evaluated at the returned save rate has profit 0. Over the reals the profit is
  exactly 0.
\<close>

theorem breakEvenSaveRate_spec:
  "(breakEvenSaveRate t contacts churnLoss contactCost = None \<longleftrightarrow> t \<le> 0 \<or> churnLoss \<le> 0)
   \<and> (\<not> (t \<le> 0 \<or> churnLoss \<le> 0) \<longrightarrow>
        breakEvenSaveRate t contacts churnLoss contactCost
          = Some ((contacts * contactCost) / (t * churnLoss)))
   \<and> (\<forall>s. breakEvenSaveRate t contacts churnLoss contactCost = Some s \<longrightarrow>
        t * (s * churnLoss) - contacts * contactCost = 0)
   \<and> (\<forall>st cap sr s.
        breakEvenSaveRate (tpExp (profitFor st cap contactCost churnLoss sr))
          (clamp cap 0 (real (length (rows st)))) churnLoss contactCost = Some s \<longrightarrow>
        profit (profitFor st cap contactCost churnLoss s) = 0)"
  by (auto simp: breakEvenSaveRate_def profitFor_def Let_def split: if_splits)

theorem breakEvenSaveRate_spec_witness:
  "breakEvenSaveRate 2 4 100 10 = Some (1 / 5)
   \<and> (2::real) * ((1 / 5) * 100) - 4 * 10 = 0
   \<and> breakEvenSaveRate 0 4 100 10 = None"
  using breakEvenSaveRate_spec [of 2 4 100 10] breakEvenSaveRate_spec [of 0 4 100 10]
  by simp

section \<open>Policy evaluation\<close>

text \<open>
  Claim C1. For every population and every requested capacity, \<^verbatim>\<open>profitFor\<close>
  clamps the capacity to \<open>[0, population size]\<close>; the contacted slice is the prefix of
  the ranked population of that length (\<^verbatim>\<open>slice\<close> truncates a fractional capacity, so
  the length is the clamped capacity itself whenever the capacity is an integer); the
  cost is the clamped capacity times \<open>contactCost\<close>; and the profit is
  \<open>expectedTruePositives * (saveRate * churnLoss) - cost\<close>. The same holds for
  \<^verbatim>\<open>computePolicy\<close>, whose cost term is \<open>contacts * contactCost\<close>.
\<close>

theorem profitFor_spec:
  "(let N = clamp cap 0 (real (length (rows st)));
        r = profitFor st cap contactCost churnLoss saveRate
    in N = max 0 (min (real (length (rows st))) cap)
       \<and> 0 \<le> N \<and> N \<le> real (length (rows st))
       \<and> contacted r = take (nat \<lfloor>N\<rfloor>) (rows st)
       \<and> (cap \<in> \<int> \<longrightarrow> real (length (contacted r)) = N)
       \<and> cost r = N * contactCost
       \<and> tpExp r = expectedTP st (contacted r)
       \<and> profit r = tpExp r * (saveRate * churnLoss) - cost r)
   \<and> (let N = clamp cap 0 (real (length (dt_rows d)));
          q = computePolicy numOf d cap contactCost churnLoss saveRate
      in p_contacts q = N
         \<and> p_contacted q = take (nat \<lfloor>N\<rfloor>) (dt_rows d)
         \<and> (cap \<in> \<int> \<longrightarrow> real (length (p_contacted q)) = N)
         \<and> p_profit q
             = (if dt_hasActual d then p_tp q else sum_list (map churn_probability (p_contacted q)))
               * (saveRate * churnLoss) - N * contactCost)"
proof -
  let ?r = "profitFor st cap contactCost churnLoss saveRate"
  let ?q = "computePolicy numOf d cap contactCost churnLoss saveRate"
  have a: "clamp cap 0 (real (length (rows st))) = max 0 (min (real (length (rows st))) cap)"
    by (simp add: clamp_def)
  have b: "cap \<in> \<int> \<longrightarrow>
      real (length (contacted ?r)) = clamp cap 0 (real (length (rows st)))"
    unfolding profitFor_fields using clamp_int_length by blast
  have c: "cap \<in> \<int> \<longrightarrow>
      real (length (p_contacted ?q)) = clamp cap 0 (real (length (dt_rows d)))"
    unfolding computePolicy_fields using clamp_int_length by blast
  have e: "p_profit ?q
      = (if dt_hasActual d then p_tp ?q else sum_list (map churn_probability (p_contacted ?q)))
        * (saveRate * churnLoss) - clamp cap 0 (real (length (dt_rows d))) * contactCost"
    by (simp add: computePolicy_fields)
  show ?thesis
    unfolding Let_def
    using a b c e clamp_bounds [of cap "length (rows st)"]
      profitFor_fields [of st cap contactCost churnLoss saveRate]
      computePolicy_fields(1,2) [of numOf d cap contactCost churnLoss saveRate]
    by blast
qed

theorem profitFor_spec_witness:
  "(2::real) \<in> \<int>
   \<and> contacted (profitFor scenario_state 2 10 100 (1 / 2)) = take 2 scenario_rows
   \<and> real (length (contacted (profitFor scenario_state 2 10 100 (1 / 2)))) = 2
   \<and> cost (profitFor scenario_state 2 10 100 (1 / 2)) = 20
   \<and> profit (profitFor scenario_state 2 10 100 (1 / 2)) = 30
   \<and> p_profit (computePolicy (\<lambda>s. NaN) \<lparr>dt_rows = scenario_rows, dt_hasActual = True\<rparr>
        2 10 100 (1 / 2)) = 30"
  using profitFor_spec [of 2 scenario_state 10 100 "1 / 2"
      "\<lparr>dt_rows = scenario_rows, dt_hasActual = True\<rparr>" "\<lambda>s. NaN"]
  by (simp add: Let_def clamp_def scenario_state_def scenario_rows_def expectedTP_def
      computePolicy_fields)


text \<open>
  Claim C2. For every contacted slice, the expected true positives are the exact count
  of contacted entries whose label is 1 when the dataset is labeled, and the sum of the
  risk scores of the contacted entries when it is not; \<^verbatim>\<open>profitFor\<close> returns that
  value for its slice, and \<^verbatim>\<open>computePolicy\<close> uses the same value in its profit.
\<close>

theorem expectedTP_spec:
  "(hasActual st \<longrightarrow>
      expectedTP st cs = real (length (filter (\<lambda>r. actual_churn r = Some 1) cs)))
   \<and> (\<not> hasActual st \<longrightarrow> expectedTP st cs = sum_list (map churn_probability cs))
   \<and> tpExp (profitFor st cap cc cl sr) = expectedTP st (contacted (profitFor st cap cc cl sr))
   \<and> (let q = computePolicy numOf d cap cc cl sr in
        (dt_hasActual d \<longrightarrow>
           p_tp q = real (length (filter (\<lambda>r. actual_churn r = Some 1) (p_contacted q)))
           \<and> p_profit q = p_tp q * (sr * cl) - p_contacts q * cc)
        \<and> (\<not> dt_hasActual d \<longrightarrow>
           p_profit q = sum_list (map churn_probability (p_contacted q)) * (sr * cl)
                         - p_contacts q * cc))"
  unfolding Let_def
  by (simp add: expectedTP_def foldl_count foldl_sum profitFor_fields computePolicy_fields)

theorem expectedTP_spec_witness:
  "hasActual scenario_state \<and> \<not> hasActual scenario_unlabeled
   \<and> expectedTP scenario_state (take 2 scenario_rows) = 1
   \<and> expectedTP scenario_unlabeled (take 2 (rows scenario_unlabeled)) = 17 / 10
   \<and> p_tp (computePolicy (\<lambda>s. NaN) \<lparr>dt_rows = scenario_rows, dt_hasActual = True\<rparr>
        2 10 100 (1 / 2)) = 1
   \<and> p_profit (computePolicy (\<lambda>s. NaN) \<lparr>dt_rows = rows scenario_unlabeled, dt_hasActual = False\<rparr>
        2 10 100 (1 / 2)) = 65"
  using expectedTP_spec [of scenario_state "take 2 scenario_rows" 2 10 100 "1 / 2" "\<lambda>s. NaN"
      "\<lparr>dt_rows = scenario_rows, dt_hasActual = True\<rparr>"]
    expectedTP_spec [of scenario_unlabeled "take 2 (rows scenario_unlabeled)" 2 10 100 "1 / 2"
      "\<lambda>s. NaN" "\<lparr>dt_rows = rows scenario_unlabeled, dt_hasActual = False\<rparr>"]
  by (simp add: Let_def clamp_def scenario_state_def scenario_unlabeled_def scenario_rows_def
      computePolicy_fields)

section \<open>Precision and recall\<close>

lemma length_filter_split:
  "real (length (filter P xs)) + real (length (filter (\<lambda>r. \<not> P r) xs)) = real (length xs)"
  using sum_length_filter_compl [of P xs] by (metis of_nat_add)

lemma computePrecisionRecall_labeled:
  assumes "hasActual st"
  shows "computePrecisionRecall st cs =
     \<lparr>precision = Some (if cs \<noteq> [] then real (positives cs) / real (length cs) else 0),
      recall = Some (if 0 < positives (rows st)
                     then real (positives cs) / real (positives (rows st)) else 0),
      tp = Some (real (positives cs)),
      fp = Some (real (length (filter (\<lambda>r. actual_churn r \<noteq> Some 1) cs))),
      totalPos = Some (real (positives (rows st)))\<rparr>"
  using assms length_filter_split [of "\<lambda>r. actual_churn r = Some 1" cs]
  by (simp add: computePrecisionRecall_def Let_def foldl_count foldl_tp_fp positives_def)

lemma positives_take_le: "positives (take k xs) \<le> positives xs"
proof -
  have "positives xs = positives (take k xs) + positives (drop k xs)"
    unfolding positives_def
    by (metis append_take_drop_id filter_append length_append)
  then show ?thesis by simp
qed

lemma positives_take_mono:
  assumes "k \<le> k'"
  shows "positives (take k xs) \<le> positives (take k' xs)"
proof -
  have "take k xs = take k (take k' xs)" using assms by (simp add: min_absorb1)
  then show ?thesis using positives_take_le [of k "take k' xs"] by simp
qed

lemma positives_le_length: "positives xs \<le> length xs"
  by (simp add: positives_def)

lemma clamp_mono: "a \<le> b \<Longrightarrow> clamp a lo hi \<le> clamp b lo hi"
  by (simp add: clamp_def max_def min_def)

lemma clamp_full: "clamp (real n) 0 (real n) = real n"
  by (simp add: clamp_def)

lemma contacted_mono:
  assumes "cap \<le> cap'"
  shows "positives (contacted (profitFor st cap cc cl sr))
           \<le> positives (contacted (profitFor st cap' cc cl sr))"
proof -
  have "nat \<lfloor>clamp cap 0 (real (length (rows st)))\<rfloor>
          \<le> nat \<lfloor>clamp cap' 0 (real (length (rows st)))\<rfloor>"
    using clamp_mono [OF assms] by (simp add: floor_mono nat_mono)
  then show ?thesis unfolding profitFor_fields by (rule positives_take_mono)
qed

lemma contacted_full:
  "contacted (profitFor st (real (length (rows st))) cc cl sr) = rows st"
  by (simp add: profitFor_fields clamp_full)

lemma precision_range:
  "0 \<le> (if cs \<noteq> [] then real (positives cs) / real (length cs) else 0)
   \<and> (if cs \<noteq> [] then real (positives cs) / real (length cs) else 0) \<le> 1"
  using positives_le_length [of cs] by (simp add: divide_le_eq)

lemma recall_range:
  assumes "positives cs \<le> positives rs"
  shows "0 \<le> (if 0 < positives rs then real (positives cs) / real (positives rs) else 0)
   \<and> (if 0 < positives rs then real (positives cs) / real (positives rs) else 0) \<le> 1"
  using assms by (simp add: divide_le_eq)

lemma computePolicy_metrics:
  assumes "dt_hasActual d"
  shows "p_precision (computePolicy numOf d cap cc cl sr)
           = precision (execMetrics \<lparr>rows = dt_rows d, hasActual = True, baseRate = b\<rparr> cap cc cl sr)"
    and "p_recall (computePolicy numOf d cap cc cl sr)
           = recall (execMetrics \<lparr>rows = dt_rows d, hasActual = True, baseRate = b\<rparr> cap cc cl sr)"
  using assms clamp_bounds [of cap "length (dt_rows d)"]
    length_filter_split [of "\<lambda>r. actual_churn r = Some 1"
      "take (nat \<lfloor>clamp cap 0 (real (length (dt_rows d)))\<rfloor>) (dt_rows d)"]
  by (simp_all add: execMetrics_def computePrecisionRecall_labeled profitFor_fields
        computePolicy_def Let_def slice0_take toNumber_label foldl_tp_fp foldl_count_if
        positives_def split: prod.splits)



text \<open>The labeled population without a churner is what the loader builds from a file
  with the one record \<^verbatim>\<open>a,0.5,0\<close>.\<close>

lemma unchurned_state_loaded:
  "init scenario_Number
     [[''customer_id'' \<mapsto> ''a'', ''churn_probability'' \<mapsto> ''0.5'', ''actual_churn'' \<mapsto> ''0'']]
   = unchurned_state"
  by (simp add: init_def init_row_def Let_def nullish_def toNumber_def ToNumber_def
      js_sort_def js_div_def trim_def is_space_def unchurned_state_def scenario_Number_def)


text \<open>
  Claim C3, as stated, fails: in a labeled population without a churner the recall at
  full capacity is 0, by the guard \<^verbatim>\<open>totalPos > 0 ? tp / totalPos : 0\<close>, and not 1.
\<close>

theorem recall_full_capacity_counterexample:
  "hasActual unchurned_state
   \<and> recall (execMetrics unchurned_state (real (length (rows unchurned_state))) 10 100 (1 / 2))
       = Some 0
   \<and> recall (execMetrics unchurned_state (real (length (rows unchurned_state))) 10 100 (1 / 2))
       \<noteq> Some 1"
  by (simp add: unchurned_state_def execMetrics_def profitFor_fields clamp_def
      computePrecisionRecall_def Let_def)


text \<open>
  Claim C3, amended. For every labeled population and every capacity, precision and
  recall both lie in \<open>[0, 1]\<close>; recall is non-decreasing in the capacity; at capacity
  equal to the population size recall is 1 when the population has at least one
  positive and 0 when it has none; precision is 0 when the contacted count is 0 and
  recall is 0 when the total positive count is 0. \<^verbatim>\<open>computePolicy\<close> returns the same
  precision and recall on the same population.
\<close>

theorem precision_recall_spec:
  assumes "hasActual st"
  shows "\<exists>p r. precision (execMetrics st cap cc cl sr) = Some p
      \<and> recall (execMetrics st cap cc cl sr) = Some r
      \<and> totalPos (execMetrics st cap cc cl sr) = Some (real (positives (rows st)))
      \<and> 0 \<le> p \<and> p \<le> 1 \<and> 0 \<le> r \<and> r \<le> 1
      \<and> (contacted (profitFor st cap cc cl sr) = [] \<longrightarrow> p = 0)
      \<and> (positives (rows st) = 0 \<longrightarrow> r = 0)
      \<and> (\<forall>cap'. cap \<le> cap' \<longrightarrow>
            (\<exists>r'. recall (execMetrics st cap' cc cl sr) = Some r' \<and> r \<le> r'))
      \<and> recall (execMetrics st (real (length (rows st))) cc cl sr)
            = Some (if positives (rows st) = 0 then 0 else 1)
      \<and> (\<forall>numOf d. dt_hasActual d \<and> dt_rows d = rows st \<longrightarrow>
            p_precision (computePolicy numOf d cap cc cl sr) = Some p
            \<and> p_recall (computePolicy numOf d cap cc cl sr) = Some r)"
proof -
  let ?cs = "contacted (profitFor st cap cc cl sr)"
  let ?p = "if ?cs \<noteq> [] then real (positives ?cs) / real (length ?cs) else 0"
  let ?r = "if 0 < positives (rows st)
            then real (positives ?cs) / real (positives (rows st)) else 0"
  have le: "positives ?cs \<le> positives (rows st)"
    unfolding profitFor_fields by (rule positives_take_le)
  have m: "execMetrics st c cc cl sr =
       \<lparr>precision = Some (if contacted (profitFor st c cc cl sr) \<noteq> []
                          then real (positives (contacted (profitFor st c cc cl sr)))
                               / real (length (contacted (profitFor st c cc cl sr))) else 0),
        recall = Some (if 0 < positives (rows st)
                       then real (positives (contacted (profitFor st c cc cl sr)))
                            / real (positives (rows st)) else 0),
        tp = Some (real (positives (contacted (profitFor st c cc cl sr)))),
        fp = Some (real (length (filter (\<lambda>r. actual_churn r \<noteq> Some 1)
                     (contacted (profitFor st c cc cl sr))))),
        totalPos = Some (real (positives (rows st)))\<rparr>" for c
    unfolding execMetrics_def by (rule computePrecisionRecall_labeled [OF assms])
  have p1: "precision (execMetrics st cap cc cl sr) = Some ?p" by (simp add: m)
  have r1: "recall (execMetrics st cap cc cl sr) = Some ?r" by (simp add: m)
  have t1: "totalPos (execMetrics st cap cc cl sr) = Some (real (positives (rows st)))"
    by (simp add: m)
  have pr: "0 \<le> ?p \<and> ?p \<le> 1" by (rule precision_range)
  have rr: "0 \<le> ?r \<and> ?r \<le> 1" by (rule recall_range [OF le])
  have p0: "?cs = [] \<longrightarrow> ?p = 0" by simp
  have r0: "positives (rows st) = 0 \<longrightarrow> ?r = 0" by simp
  have mono: "\<forall>cap'. cap \<le> cap' \<longrightarrow>
      (\<exists>r'. recall (execMetrics st cap' cc cl sr) = Some r' \<and> ?r \<le> r')"
  proof (intro allI impI)
    fix cap' assume "cap \<le> cap'"
    then have "positives ?cs \<le> positives (contacted (profitFor st cap' cc cl sr))"
      by (rule contacted_mono)
    then have "?r \<le> (if 0 < positives (rows st)
                 then real (positives (contacted (profitFor st cap' cc cl sr)))
                      / real (positives (rows st)) else 0)"
      by (simp add: divide_right_mono)
    then show "\<exists>r'. recall (execMetrics st cap' cc cl sr) = Some r' \<and> ?r \<le> r'"
      by (simp add: m)
  qed
  have full: "recall (execMetrics st (real (length (rows st))) cc cl sr)
      = Some (if positives (rows st) = 0 then 0 else 1)"
    by (simp add: m contacted_full)
  have pol: "\<forall>numOf d. dt_hasActual d \<and> dt_rows d = rows st \<longrightarrow>
      p_precision (computePolicy numOf d cap cc cl sr) = Some ?p
      \<and> p_recall (computePolicy numOf d cap cc cl sr) = Some ?r"
  proof (intro allI impI)
    fix numOf :: "string \<Rightarrow> jsnum" and d :: dt_state
    assume d: "dt_hasActual d \<and> dt_rows d = rows st"
    have "st = \<lparr>rows = dt_rows d, hasActual = True, baseRate = baseRate st\<rparr>"
      using assms d by simp
    then have "execMetrics \<lparr>rows = dt_rows d, hasActual = True, baseRate = baseRate st\<rparr>
         cap cc cl sr = execMetrics st cap cc cl sr" by simp
    then show "p_precision (computePolicy numOf d cap cc cl sr) = Some ?p
      \<and> p_recall (computePolicy numOf d cap cc cl sr) = Some ?r"
      using d computePolicy_metrics [of d numOf cap cc cl sr "baseRate st"] p1 r1
      by simp
  qed
  show ?thesis
    apply (rule exI [of _ ?p])
    apply (rule exI [of _ ?r])
    apply (intro conjI)
    subgoal by (rule p1)
    subgoal by (rule r1)
    subgoal by (rule t1)
    subgoal using pr by (rule conjunct1)
    subgoal using pr by (rule conjunct2)
    subgoal using rr by (rule conjunct1)
    subgoal using rr by (rule conjunct2)
    subgoal by (rule p0)
    subgoal by (rule r0)
    subgoal by (rule mono)
    subgoal by (rule full)
    subgoal by (rule pol)
    done
qed

theorem precision_recall_spec_witness:
  "hasActual scenario_state
   \<and> precision (execMetrics scenario_state 2 10 100 (1 / 2)) = Some (1 / 2)
   \<and> recall (execMetrics scenario_state 2 10 100 (1 / 2)) = Some (1 / 2)
   \<and> recall (execMetrics scenario_state 4 10 100 (1 / 2)) = Some 1
   \<and> precision (execMetrics scenario_state 0 10 100 (1 / 2)) = Some 0"
  using precision_recall_spec [of scenario_state 2 10 100 "1 / 2"]
    precision_recall_spec [of scenario_state 0 10 100 "1 / 2"]
  by (simp add: scenario_state_def scenario_rows_def execMetrics_def profitFor_fields
      clamp_def computePrecisionRecall_def Let_def)

section \<open>Profit curve\<close>

declare curve_loop.simps [simp del]

lemma curve_step_pos: "0 < curve_step n"
  by (simp add: curve_step_def)

lemma curve_loop_bounds:
  "p \<in> set (curve_loop st cc cl sr n cap) \<Longrightarrow> cap \<le> capacity p \<and> capacity p \<le> n"
proof (induction st cc cl sr n cap rule: curve_loop.induct)
  case (1 st cc cl sr n cap)
  show ?case
  proof (cases "cap \<le> n")
    case True
    from "1.prems" True
    have "p = \<lparr>capacity = cap, point_profit = profit (profitFor st (real cap) cc cl sr)\<rparr>
          \<or> p \<in> set (curve_loop st cc cl sr n (cap + curve_step n))"
      by (subst (asm) curve_loop.simps) simp
    then show ?thesis
    proof
      assume "p = \<lparr>capacity = cap, point_profit = profit (profitFor st (real cap) cc cl sr)\<rparr>"
      then show ?thesis using True by simp
    next
      assume "p \<in> set (curve_loop st cc cl sr n (cap + curve_step n))"
      then have "cap + curve_step n \<le> capacity p \<and> capacity p \<le> n"
        by (rule "1.IH" [OF True])
      then show ?thesis by simp
    qed
  next
    case False
    with "1.prems" show ?thesis by (subst (asm) curve_loop.simps) simp
  qed
qed

lemma curve_loop_ascending:
  "sorted_wrt (<) (map capacity (curve_loop st cc cl sr n cap))"
proof (induction st cc cl sr n cap rule: curve_loop.induct)
  case (1 st cc cl sr n cap)
  show ?case
  proof (cases "cap \<le> n")
    case True
    have "\<forall>p \<in> set (curve_loop st cc cl sr n (cap + curve_step n)). cap < capacity p"
      using curve_loop_bounds [of _ st cc cl sr n "cap + curve_step n"] curve_step_pos [of n]
      by fastforce
    then show ?thesis
      using True "1.IH" [OF True] by (subst curve_loop.simps) simp
  next
    case False
    then show ?thesis by (subst curve_loop.simps) simp
  qed
qed

lemma curve_loop_profit:
  "p \<in> set (curve_loop st cc cl sr n cap) \<Longrightarrow>
     point_profit p = profit (profitFor st (real (capacity p)) cc cl sr)"
proof (induction st cc cl sr n cap rule: curve_loop.induct)
  case (1 st cc cl sr n cap)
  show ?case
  proof (cases "cap \<le> n")
    case True
    from "1.prems" True
    have "p = \<lparr>capacity = cap, point_profit = profit (profitFor st (real cap) cc cl sr)\<rparr>
          \<or> p \<in> set (curve_loop st cc cl sr n (cap + curve_step n))"
      by (subst (asm) curve_loop.simps) simp
    then show ?thesis using "1.IH" [OF True] by auto
  next
    case False
    with "1.prems" show ?thesis by (subst (asm) curve_loop.simps) simp
  qed
qed

lemma curve_loop_start:
  "curve_loop st cc cl sr n 0 \<noteq> [] \<and> capacity (hd (curve_loop st cc cl sr n 0)) = 0"
  by (subst curve_loop.simps, subst (2) curve_loop.simps) simp

lemma ascending_le_last:
  "sorted_wrt (<) (xs::nat list) \<Longrightarrow> x \<in> set xs \<Longrightarrow> x \<le> last xs"
proof (induction xs)
  case Nil
  then show ?case by simp
next
  case (Cons a xs)
  show ?case
  proof (cases "xs = []")
    case True
    with Cons.prems show ?thesis by simp
  next
    case False
    then have "last xs \<in> set xs" by simp
    then have lt: "a < last xs" using Cons.prems(1) by simp
    show ?thesis
    proof (cases "x = a")
      case True
      then show ?thesis using lt False by simp
    next
      case False
      then have "x \<in> set xs" using Cons.prems(2) by simp
      then have "x \<le> last xs" using Cons.IH Cons.prems(1) by simp
      then show ?thesis using \<open>xs \<noteq> []\<close> by simp
    qed
  qed
qed

lemma ascending_snoc:
  assumes "sorted_wrt (<) (map capacity ps)" "ps \<noteq> []"
    "capacity (last ps) \<le> n" "capacity (last ps) \<noteq> n"
  shows "sorted_wrt (<) (map capacity (ps @ [\<lparr>capacity = n, point_profit = v\<rparr>]))"
proof -
  have "capacity p < n" if mem: "p \<in> set ps" for p
  proof -
    have "capacity p \<le> last (map capacity ps)"
      using assms(1) mem by (intro ascending_le_last) simp_all
    then have "capacity p \<le> capacity (last ps)" using assms(2) by (simp add: last_map)
    then show ?thesis using assms(3,4) by simp
  qed
  then show ?thesis using assms(1) by (simp add: sorted_wrt_append)
qed

lemma last_differs:
  "(case ps of [] \<Rightarrow> True | _ \<Rightarrow> capacity (last ps) \<noteq> n)
     = (ps = [] \<or> capacity (last ps) \<noteq> n)"
  by (cases ps) simp_all

lemma curve_capacities_grid:
  assumes "length (rows st) = 120"
  shows "map capacity (computeProfitCurve st cc cl sr) = [0, 50, 100, 120]"
  using assms
  by (simp add: computeProfitCurve_def Let_def curve_loop.simps curve_step_def)

text \<open>
  Claim C6. For every non-empty population and every parameter tuple, the points of the
  profit curve have strictly ascending capacities, the first capacity is 0, the last
  capacity is the population size exactly, and the profit of every point is the profit
  \<^verbatim>\<open>profitFor\<close> returns at that point's capacity with the same parameters.
\<close>

theorem computeProfitCurve_spec:
  assumes "rows st \<noteq> []"
  shows "computeProfitCurve st cc cl sr \<noteq> []
     \<and> sorted_wrt (<) (map capacity (computeProfitCurve st cc cl sr))
     \<and> capacity (hd (computeProfitCurve st cc cl sr)) = 0
     \<and> capacity (last (computeProfitCurve st cc cl sr)) = length (rows st)
     \<and> (\<forall>p \<in> set (computeProfitCurve st cc cl sr).
           point_profit p = profit (profitFor st (real (capacity p)) cc cl sr))"
proof -
  let ?n = "length (rows st)"
  let ?ps = "curve_loop st cc cl sr ?n 0"
  let ?e = "\<lparr>capacity = ?n, point_profit = profit (profitFor st (real ?n) cc cl sr)\<rparr>"
  have ne: "?ps \<noteq> []" and h: "capacity (hd ?ps) = 0"
    using curve_loop_start [of st cc cl sr ?n] by simp_all
  have asc: "sorted_wrt (<) (map capacity ?ps)" by (rule curve_loop_ascending)
  have le: "capacity (last ?ps) \<le> ?n"
    using curve_loop_bounds [of "last ?ps" st cc cl sr ?n 0] ne by simp
  have pr: "\<forall>p \<in> set ?ps. point_profit p = profit (profitFor st (real (capacity p)) cc cl sr)"
    using curve_loop_profit by blast
  show ?thesis
  proof (cases "capacity (last ?ps) = ?n")
    case True
    then have "computeProfitCurve st cc cl sr = ?ps"
      using assms ne by (simp add: computeProfitCurve_def Let_def last_differs)
    then show ?thesis using ne asc h True pr by simp
  next
    case False
    then have c: "computeProfitCurve st cc cl sr = ?ps @ [?e]"
      using assms ne by (simp add: computeProfitCurve_def Let_def last_differs)
    have "sorted_wrt (<) (map capacity (?ps @ [?e]))"
      using asc ne le False by (rule ascending_snoc)
    moreover have "capacity (hd (?ps @ [?e])) = 0" using ne h by simp
    moreover have "\<forall>p \<in> set (?ps @ [?e]).
        point_profit p = profit (profitFor st (real (capacity p)) cc cl sr)"
      using pr by simp
    ultimately show ?thesis unfolding c by simp
  qed
qed

theorem computeProfitCurve_spec_witness:
  "rows scenario_state \<noteq> []
   \<and> computeProfitCurve scenario_state 10 100 (1 / 2)
       = [\<lparr>capacity = 0, point_profit = 0\<rparr>, \<lparr>capacity = 4, point_profit = 60\<rparr>]
   \<and> length (rows scenario_state) = 4"
  using computeProfitCurve_spec [of scenario_state 10 100 "1 / 2"]
  by (simp add: computeProfitCurve_def Let_def curve_loop.simps curve_step_def
      scenario_state_def scenario_rows_def profitFor_def clamp_def slice0_def trunc_def
      expectedTP_def)

section \<open>Loading: the ranked population and the base rate\<close>

text \<open>
  With the comparator \<^verbatim>\<open>(a, b) => b.churn_probability - a.churn_probability\<close> the
  sort is the stable sort by descending risk. The sorted list is the only permutation
  of the input that is descending and keeps the input order among equal risks
  (\<open>js_sort_unique\<close>), so the result does not depend on the sorting algorithm of the
  engine.
\<close>

lemma sort_insert_by_risk:
  "sort_insert by_risk_desc x ys = insort_key (\<lambda>r. - churn_probability r) x ys"
  by (induction ys) (simp_all add: by_risk_desc_def)

lemma js_sort_by_risk:
  "js_sort by_risk_desc xs = sort_key (\<lambda>r. - churn_probability r) xs"
  by (induction xs) (simp_all add: js_sort_def sort_insert_by_risk sort_key_def)

lemma js_sort_mset: "mset (js_sort by_risk_desc xs) = mset xs"
  by (simp add: js_sort_by_risk)

lemma js_sort_length: "length (js_sort by_risk_desc xs) = length xs"
  using js_sort_mset [of xs] by (metis size_mset)

lemma js_sort_descending:
  "sorted_wrt (\<lambda>a b. churn_probability b \<le> churn_probability a) (js_sort by_risk_desc xs)"
proof -
  have "sorted (map (\<lambda>r. - churn_probability r) (js_sort by_risk_desc xs))"
    by (simp add: js_sort_by_risk)
  then show ?thesis by (simp add: sorted_map)
qed

lemma js_sort_stable:
  "filter (\<lambda>r. churn_probability r = k) (js_sort by_risk_desc xs)
     = filter (\<lambda>r. churn_probability r = k) xs"
proof -
  have "(\<lambda>r. - churn_probability r = - k) = (\<lambda>r. churn_probability r = k)" by auto
  then show ?thesis
    using sort_key_stable [of "\<lambda>r. - churn_probability r" "- k" xs]
    by (simp add: js_sort_by_risk)
qed

lemma js_sort_unique:
  assumes "mset ys = mset xs"
    and "sorted_wrt (\<lambda>a b. churn_probability b \<le> churn_probability a) ys"
    and "\<And>k. filter (\<lambda>r. churn_probability r = k) ys = filter (\<lambda>r. churn_probability r = k) xs"
  shows "ys = js_sort by_risk_desc xs"
proof -
  have s: "sorted (map (\<lambda>r. - churn_probability r) ys)"
    using assms(2) by (simp add: sorted_map)
  have f: "filter (\<lambda>x. - churn_probability k = - churn_probability x) ys
         = filter (\<lambda>x. - churn_probability k = - churn_probability x) xs" for k
    using assms(3) [of "churn_probability k"] by (simp add: eq_commute)
  show ?thesis
    unfolding js_sort_by_risk
    by (rule properties_for_sort_key [OF assms(1) f s, symmetric])
qed

lemma js_sort_positives: "positives (js_sort by_risk_desc xs) = positives xs"
proof -
  have "mset (filter (\<lambda>r. actual_churn r = Some 1) (js_sort by_risk_desc xs))
        = mset (filter (\<lambda>r. actual_churn r = Some 1) xs)"
    by (simp add: js_sort_mset)
  then show ?thesis unfolding positives_def by (metis size_mset)
qed

lemma js_sort_sum:
  "sum_list (map churn_probability (js_sort by_risk_desc xs)) = sum_list (map churn_probability xs)"
proof -
  have "mset (map churn_probability (js_sort by_risk_desc xs)) = mset (map churn_probability xs)"
    by (simp add: js_sort_mset)
  then show ?thesis by (metis sum_mset_sum_list)
qed

lemma init_fields:
  "rows (init numOf ps) = js_sort by_risk_desc (map (init_row numOf) ps)"
  "hasActual (init numOf ps) = list_ex (\<lambda>r. actual_churn r \<noteq> None) (map (init_row numOf) ps)"
  "baseRate (init numOf ps)
     = Some (js_div (if hasActual (init numOf ps)
                     then real (positives (rows (init numOf ps)))
                     else sum_list (map churn_probability (rows (init numOf ps))))
               (real (length (rows (init numOf ps)))))"
  "length (rows (init numOf ps)) = length ps"
  by (simp_all add: init_def Let_def foldl_count foldl_sum js_sort_positives js_sort_sum
        js_sort_length positives_def [symmetric])

lemma dt_init_fields:
  "dt_rows (dt_init numOf ps) = js_sort by_risk_desc (map (dt_init_row numOf) ps)"
  "dt_hasActual (dt_init numOf ps)
     = list_ex (\<lambda>r. actual_churn r \<noteq> None) (map (dt_init_row numOf) ps)"
  "length (dt_rows (dt_init numOf ps)) = length ps"
  by (simp_all add: dt_init_def Let_def js_sort_length)

lemmas load_simps =
  init_def dt_init_def init_row_def dt_init_row_def Let_def nullish_def toNumber_def
  ToNumber_def js_sort_def by_risk_desc_def js_div_def trim_def is_space_def
  scenario_Number_def



text \<open>
  Claim C8. After loading, the ranked population is sorted by risk descending, it is a
  permutation of the loaded records, and entries of equal risk keep their input order:
  for every risk value, the entries with that risk appear in the ranked population in
  the order they have in the input. This holds for both scripts. The ranked population
  is a function of the input record sequence, and so is every output computed from it.
\<close>

theorem init_sorted_stable:
  "sorted_wrt (\<lambda>a b. churn_probability b \<le> churn_probability a) (rows (init numOf ps))
   \<and> mset (rows (init numOf ps)) = mset (map (init_row numOf) ps)
   \<and> (\<forall>k. filter (\<lambda>r. churn_probability r = k) (rows (init numOf ps))
            = filter (\<lambda>r. churn_probability r = k) (map (init_row numOf) ps))
   \<and> sorted_wrt (\<lambda>a b. churn_probability b \<le> churn_probability a) (dt_rows (dt_init numOf ps))
   \<and> mset (dt_rows (dt_init numOf ps)) = mset (map (dt_init_row numOf) ps)
   \<and> (\<forall>k. filter (\<lambda>r. churn_probability r = k) (dt_rows (dt_init numOf ps))
            = filter (\<lambda>r. churn_probability r = k) (map (dt_init_row numOf) ps))"
  by (simp add: init_fields dt_init_fields js_sort_descending js_sort_mset js_sort_stable)

theorem init_sorted_stable_witness:
  "map customer_id (rows (init scenario_Number ties_parsed)) = [''y'', ''x'', ''z'']
   \<and> map customer_id (dt_rows (dt_init scenario_Number ties_parsed)) = [''y'', ''x'', ''z'']
   \<and> map customer_id (filter (\<lambda>r. churn_probability r = 1 / 2)
        (rows (init scenario_Number ties_parsed))) = [''x'', ''z'']"
  using init_sorted_stable [of scenario_Number ties_parsed]
  by (simp add: load_simps ties_parsed_def)




section \<open>Labels\<close>

lemma init_row_label:
  "actual_churn (init_row numOf p)
     = (case p ''actual_churn'' of None \<Rightarrow> None
        | Some s \<Rightarrow> if s = [] then None else Some (toNumber numOf (Str s) 0))"
  by (simp add: init_row_def Let_def)

lemma dt_init_row_label:
  "actual_churn (dt_init_row numOf p)
     = (case p ''actual_churn'' of None \<Rightarrow> None | Some s \<Rightarrow> Some (toNumber numOf (Str s) 0))"
  by (simp add: dt_init_row_def)

lemma toNumber_not_finite: "(\<forall>x. numOf s \<noteq> Num x) \<Longrightarrow> toNumber numOf (Str s) d = d"
  by (cases "numOf s") (simp_all add: toNumber_def ToNumber_def)

lemma expectedTP_append:
  "hasActual st \<Longrightarrow>
     expectedTP st (cs @ [r]) = expectedTP st cs + (if actual_churn r = Some 1 then 1 else 0)"
  by (simp add: expectedTP_def)

text \<open>
  Claim C10. An entry counts as a true positive (in the expected true positives, in
  precision and recall, and in the total positive count) exactly when its stored label
  is the number 1, that is, when the label cell, converted by \<^verbatim>\<open>toNumber\<close> with
  fallback 0, is 1. A cell that is not a finite number is stored as 0; such an entry,
  like one labeled 0 or any other number, is counted among the false positives. No
  record is dropped by the loader: the population has as many entries as the file has
  records.
\<close>

theorem label_counting_spec:
  "(actual_churn (init_row numOf p) = Some 1
      \<longleftrightarrow> (\<exists>s. p ''actual_churn'' = Some s \<and> s \<noteq> [] \<and> toNumber numOf (Str s) 0 = 1))
   \<and> (actual_churn (dt_init_row numOf p) = Some 1
      \<longleftrightarrow> (\<exists>s. p ''actual_churn'' = Some s \<and> toNumber numOf (Str s) 0 = 1))
   \<and> (\<forall>s. p ''actual_churn'' = Some s \<and> s \<noteq> [] \<and> (\<forall>x. numOf s \<noteq> Num x) \<longrightarrow>
         actual_churn (init_row numOf p) = Some 0 \<and> actual_churn (dt_init_row numOf p) = Some 0)
   \<and> length (rows (init numOf ps)) = length ps
   \<and> length (dt_rows (dt_init numOf ps)) = length ps
   \<and> (hasActual st \<longrightarrow>
         expectedTP st cs = real (positives cs)
         \<and> expectedTP st (cs @ [r]) = expectedTP st cs + (if actual_churn r = Some 1 then 1 else 0)
         \<and> tp (computePrecisionRecall st cs) = Some (real (positives cs))
         \<and> fp (computePrecisionRecall st cs) = Some (real (length cs) - real (positives cs))
         \<and> totalPos (computePrecisionRecall st cs) = Some (real (positives (rows st)))
         \<and> precision (computePrecisionRecall st cs)
             = Some (if cs \<noteq> [] then real (positives cs) / real (length cs) else 0)
         \<and> recall (computePrecisionRecall st cs)
             = Some (if 0 < positives (rows st)
                     then real (positives cs) / real (positives (rows st)) else 0))
   \<and> (dt_hasActual d \<longrightarrow>
         (let q = computePolicy numOf d cap cc cl sr in
            p_tp q = real (positives (p_contacted q))
            \<and> p_fp q = real (length (p_contacted q)) - real (positives (p_contacted q))
            \<and> p_recall q = Some (if 0 < positives (dt_rows d)
                     then real (positives (p_contacted q)) / real (positives (dt_rows d)) else 0)))"
proof -
  have a: "actual_churn (init_row numOf p) = Some 1
      \<longleftrightarrow> (\<exists>s. p ''actual_churn'' = Some s \<and> s \<noteq> [] \<and> toNumber numOf (Str s) 0 = 1)"
    by (auto simp: init_row_label split: option.splits if_splits)
  have b: "actual_churn (dt_init_row numOf p) = Some 1
      \<longleftrightarrow> (\<exists>s. p ''actual_churn'' = Some s \<and> toNumber numOf (Str s) 0 = 1)"
    by (auto simp: dt_init_row_label split: option.splits)
  have c: "\<forall>s. p ''actual_churn'' = Some s \<and> s \<noteq> [] \<and> (\<forall>x. numOf s \<noteq> Num x) \<longrightarrow>
         actual_churn (init_row numOf p) = Some 0 \<and> actual_churn (dt_init_row numOf p) = Some 0"
    by (simp add: init_row_label dt_init_row_label toNumber_not_finite)
  have f: "real (length (filter (\<lambda>r. actual_churn r \<noteq> Some 1) xs))
         = real (length xs) - real (positives xs)" for xs
    using length_filter_split [of "\<lambda>r. actual_churn r = Some 1" xs]
    by (simp add: positives_def)
  have e: "hasActual st \<longrightarrow>
         expectedTP st cs = real (positives cs)
         \<and> expectedTP st (cs @ [r]) = expectedTP st cs + (if actual_churn r = Some 1 then 1 else 0)
         \<and> tp (computePrecisionRecall st cs) = Some (real (positives cs))
         \<and> fp (computePrecisionRecall st cs) = Some (real (length cs) - real (positives cs))
         \<and> totalPos (computePrecisionRecall st cs) = Some (real (positives (rows st)))
         \<and> precision (computePrecisionRecall st cs)
             = Some (if cs \<noteq> [] then real (positives cs) / real (length cs) else 0)
         \<and> recall (computePrecisionRecall st cs)
             = Some (if 0 < positives (rows st)
                     then real (positives cs) / real (positives (rows st)) else 0)"
    by (simp add: computePrecisionRecall_labeled f expectedTP_append)
       (simp add: expectedTP_def foldl_count positives_def)
  have g: "dt_hasActual d \<longrightarrow>
         (let q = computePolicy numOf d cap cc cl sr in
            p_tp q = real (positives (p_contacted q))
            \<and> p_fp q = real (length (p_contacted q)) - real (positives (p_contacted q))
            \<and> p_recall q = Some (if 0 < positives (dt_rows d)
                     then real (positives (p_contacted q)) / real (positives (dt_rows d)) else 0))"
    using clamp_bounds [of cap "length (dt_rows d)"]
    by (simp add: computePolicy_def Let_def slice0_take toNumber_label foldl_tp_fp
        foldl_count_if f positives_def [symmetric] split: prod.splits)
  show ?thesis
    using a b c e g init_fields(4) [of numOf ps] dt_init_fields(3) [of numOf ps] by blast
qed

theorem label_counting_spec_witness:
  "map actual_churn (rows (init scenario_Number odd_labels_parsed))
     = [Some 1, Some 0, Some 2, Some 0]
   \<and> (\<forall>x. scenario_Number ''yes'' \<noteq> Num x)
   \<and> hasActual (init scenario_Number odd_labels_parsed)
   \<and> length (rows (init scenario_Number odd_labels_parsed)) = 4
   \<and> expectedTP (init scenario_Number odd_labels_parsed)
        (rows (init scenario_Number odd_labels_parsed)) = 1
   \<and> fp (computePrecisionRecall (init scenario_Number odd_labels_parsed)
        (rows (init scenario_Number odd_labels_parsed))) = Some 3
   \<and> dt_hasActual (dt_init scenario_Number odd_labels_parsed)
   \<and> p_tp (computePolicy scenario_Number (dt_init scenario_Number odd_labels_parsed)
        4 10 100 (1 / 2)) = 1"
  using label_counting_spec [where numOf = scenario_Number
      and p = "[''actual_churn'' \<mapsto> ''yes'']" and ps = odd_labels_parsed
      and st = "init scenario_Number odd_labels_parsed"
      and cs = "rows (init scenario_Number odd_labels_parsed)"
      and d = "dt_init scenario_Number odd_labels_parsed"
      and cap = 4 and cc = 10 and cl = 100 and sr = "1 / 2"]
  by (simp add: load_simps odd_labels_parsed_def positives_def clamp_def slice0_def
      trunc_def computePolicy_def label_val_def)

section \<open>The empty population\<close>

text \<open>
  On the population loaded from a file without records, \<^verbatim>\<open>profitFor\<close> returns
  zeros, the curve is empty, and the metrics are not applicable. Before any file is
  loaded \<open>baseRate\<close> is \<^verbatim>\<open>null\<close> and \<^verbatim>\<open>randomStrategy\<close> returns zeros, by
  its guard \<^verbatim>\<open>baseRate ?? 0\<close>.
\<close>

lemma empty_population_engine:
  "hasActual (init numOf []) = False"
  "rows (init numOf []) = []"
  "profitFor (init numOf []) cap cc cl sr = \<lparr>profit = 0, cost = 0, tpExp = 0, contacted = []\<rparr>"
  "computeProfitCurve (init numOf []) cc cl sr = []"
  "computePrecisionRecall (init numOf []) []
     = \<lparr>precision = None, recall = None, tp = None, fp = None, totalPos = None\<rparr>"
  "roi (profit (profitFor (init numOf []) cap cc cl sr))
       (cost (profitFor (init numOf []) cap cc cl sr)) = None"
  "breakEvenSaveRate (tpExp (profitFor (init numOf []) cap cc cl sr)) cap cl cc = None"
  by (simp_all add: init_def Let_def js_sort_def profitFor_def clamp_def slice0_def
      expectedTP_def computeProfitCurve_def computePrecisionRecall_def roi_def
      breakEvenSaveRate_def)

lemma never_loaded_random_baseline:
  "randomStrategy initial_state cap cc cl sr = \<lparr>profit = Num 0, cost = 0, tpExp = Num 0\<rparr>"
  by (simp add: randomStrategy_def initial_state_def clamp_def Let_def)

text \<open>
  Claim C9 says that for a population of size 0 every engine operation returns zero or
  the not-applicable value and that no operation divides unguarded or produces an
  invalid value. The code does otherwise in the random baseline: loading a file without
  records computes the base rate as \<^verbatim>\<open>0 / rows.length\<close>, which is \<^verbatim>\<open>NaN\<close>; the
  guard \<^verbatim>\<open>baseRate ?? 0\<close> does not catch it, and \<^verbatim>\<open>randomStrategy\<close> returns
  \<^verbatim>\<open>NaN\<close> as expected true positives and as profit, at every capacity and for all
  parameters.
\<close>

theorem empty_population_random_baseline:
  "baseRate (init numOf []) = Some NaN
   \<and> randomStrategy (init numOf []) cap cc cl sr = \<lparr>profit = NaN, cost = 0, tpExp = NaN\<rparr>"
  by (simp add: init_def Let_def js_sort_def js_div_def randomStrategy_def clamp_def)

end
